theory Spec2Isabelle
  imports Complex_Main
begin

section \<open>Python values\<close>

text \<open>
  The configuration handed to \<open>ECRPolicy.scan_resource_conf\<close> is what a YAML or JSON
  template parses to: \<open>None\<close>, booleans, integers, floats, strings, lists and
  dictionaries. A dictionary is an association list read with \<open>map_of\<close>; the keys the
  check looks up are all string literals, so keys are strings. A float only ever meets a
  truth test here, which asks whether it is zero.
\<close>

datatype pyval =
    PNone
  | PBool bool
  | PInt int
  | PFloat real
  | PStr string
  | PList "pyval list"
  | PDict "(string \<times> pyval) list"

type_synonym pydict = "(string \<times> pyval) list"

datatype CheckResult = PASSED | FAILED | UNKNOWN

text \<open>
  The exceptions met in the body. \<open>JSONDecodeError\<close> is the one line 38 catches; the
  decoder can also fail with a \<open>RecursionError\<close> (nesting too deep) or a plain
  \<open>ValueError\<close> (an integer literal beyond the digit limit), which nothing catches.
\<close>

datatype error =
  AttributeError | TypeError | KeyError | JSONDecodeError | RecursionError | ValueError

datatype log_level = INFO | ERROR

text \<open>
  The check object keeps the attribute \<open>evaluated_keys\<close> between calls; the records
  handed to \<open>logging\<close> are kept next to it, each with its level and the policy text
  it reports.
\<close>

record check_state =
  evaluated_keys :: "string list"
  logged :: "(log_level \<times> string) list"

type_synonym outcome = "(error + CheckResult) \<times> check_state"

subsection \<open>Built-in operations\<close>

text \<open>Python's truth value: \<open>not x\<close> holds for \<open>None\<close>, \<open>False\<close>, zero and empty containers.\<close>

fun truthy :: "pyval \<Rightarrow> bool" where
  "truthy PNone = False"
| "truthy (PBool b) = b"
| "truthy (PInt i) = (i \<noteq> 0)"
| "truthy (PFloat r) = (r \<noteq> 0)"
| "truthy (PStr s) = (s \<noteq> [])"
| "truthy (PList xs) = (xs \<noteq> [])"
| "truthy (PDict d) = (d \<noteq> [])"

fun is_dict :: "pyval \<Rightarrow> bool" where
  "is_dict (PDict d) = True"
| "is_dict v = False"

fun is_str :: "pyval \<Rightarrow> bool" where
  "is_str (PStr t) = True"
| "is_str v = False"

fun is_list :: "pyval \<Rightarrow> bool" where
  "is_list (PList xs) = True"
| "is_list v = False"

text \<open>\<open>needle in haystack\<close> on two strings: a contiguous occurrence.\<close>

fun starts_with :: "string \<Rightarrow> string \<Rightarrow> bool" where
  "starts_with [] s = True"
| "starts_with (c # cs) [] = False"
| "starts_with (c # cs) (d # ds) = (c = d \<and> starts_with cs ds)"

fun occurs_in :: "string \<Rightarrow> string \<Rightarrow> bool" where
  "occurs_in needle [] = (needle = [])"
| "occurs_in needle (d # ds) = (starts_with needle (d # ds) \<or> occurs_in needle ds)"

text \<open>
  \<open>k in v\<close> for a string literal \<open>k\<close>: key membership on a dictionary, element
  membership on a list, substring on a string, and a \<open>TypeError\<close> on anything else.
\<close>

fun py_in :: "string \<Rightarrow> pyval \<Rightarrow> error + bool" where
  "py_in k (PDict d) = Inr (map_of d k \<noteq> None)"
| "py_in k (PList xs) = Inr (PStr k \<in> set xs)"
| "py_in k (PStr s) = Inr (occurs_in k s)"
| "py_in k v = Inl TypeError"

text \<open>
  \<open>v[k]\<close> for a string literal \<open>k\<close>: the value on a dictionary (\<open>KeyError\<close> when the key
  is missing), a \<open>TypeError\<close> on a list, a string or a scalar.
\<close>

fun py_getitem :: "pyval \<Rightarrow> string \<Rightarrow> error + pyval" where
  "py_getitem (PDict d) k = (case map_of d k of Some v \<Rightarrow> Inr v | None \<Rightarrow> Inl KeyError)"
| "py_getitem v k = Inl TypeError"

text \<open>
  What \<open>enumerate(v)\<close> walks through: the elements of a list, the one-character strings
  of a string, the keys of a dictionary; \<open>None\<close> here stands for the \<open>TypeError\<close> of a
  value that is not iterable.
\<close>

fun py_iter :: "pyval \<Rightarrow> pyval list option" where
  "py_iter (PList xs) = Some xs"
| "py_iter (PStr s) = Some (map (\<lambda>c. PStr [c]) s)"
| "py_iter (PDict d) = Some (map (\<lambda>kv. PStr (fst kv)) d)"
| "py_iter v = None"

text \<open>\<open>str(n)\<close> for an index: the decimal digits.\<close>

definition digit_char :: "nat \<Rightarrow> char" where
  "digit_char n = ''0123456789'' ! (n mod 10)"

function str_nat :: "nat \<Rightarrow> string" where
  "str_nat n = (if n < 10 then [digit_char n] else str_nat (n div 10) @ [digit_char n])"
  by pat_completeness auto
termination
  by (relation "measure id") auto

declare str_nat.simps [simp del]

section \<open>The check\<close>

subsection \<open>\<open>check_for_constrained_condition\<close>\<close>

text \<open>The final test of the method, on whatever \<open>string_equals\<close> was bound to.\<close>

fun has_org_id :: "pyval \<Rightarrow> bool" where
  "has_org_id (PDict d) = (map_of d ''aws:PrincipalOrgID'' \<noteq> None)"
| "has_org_id v = False"

definition select_string_equals :: "pyval \<Rightarrow> error + pyval" where
  "select_string_equals condition =
     (case py_in ''StringEquals'' condition of
        Inl e \<Rightarrow> Inl e
      | Inr True \<Rightarrow> py_getitem condition ''StringEquals''
      | Inr False \<Rightarrow>
        (case py_in ''ForAllValues:StringEquals'' condition of
           Inl e \<Rightarrow> Inl e
         | Inr True \<Rightarrow> py_getitem condition ''ForAllValues:StringEquals''
         | Inr False \<Rightarrow>
           (case py_in ''ForAnyValue:StringEquals'' condition of
              Inl e \<Rightarrow> Inl e
            | Inr True \<Rightarrow> py_getitem condition ''ForAnyValue:StringEquals''
            | Inr False \<Rightarrow> Inr PNone)))"

definition check_for_constrained_condition :: "pydict \<Rightarrow> error + bool" where
  "check_for_constrained_condition statement =
     (case map_of statement ''Condition'' of
        None \<Rightarrow> Inr False
      | Some condition \<Rightarrow>
        (case select_string_equals condition of
           Inl e \<Rightarrow> Inl e
         | Inr string_equals \<Rightarrow> Inr (has_org_id string_equals)))"

subsection \<open>\<open>scan_resource_conf\<close>\<close>

definition default_key :: string where
  "default_key = ''Properties/RepositoryPolicyText/Statement''"

definition statement_key :: "nat \<Rightarrow> string" where
  "statement_key i = ''Properties/RepositoryPolicyText/Statement/['' @ str_nat i @ '']/Principal''"

text \<open>
  Lines 51 to 55: the block that is scanned and the key built so far. A \<open>Principal\<close>
  dictionary with an \<open>AWS\<close> key is replaced by the value under that key.
\<close>

fun principal_block :: "pyval \<Rightarrow> pyval" where
  "principal_block (PDict p) = (case map_of p ''AWS'' of Some a \<Rightarrow> a | None \<Rightarrow> PDict p)"
| "principal_block v = v"

fun has_aws :: "pyval \<Rightarrow> bool" where
  "has_aws (PDict p) = (map_of p ''AWS'' \<noteq> None)"
| "has_aws v = False"

definition evaluated_key :: "nat \<Rightarrow> pyval \<Rightarrow> string" where
  "evaluated_key i pr = statement_key i @ (if has_aws pr then ''/AWS'' else [])"

text \<open>Lines 58 to 61: the key reported for the entry at index \<open>j\<close>.\<close>

definition reported_key :: "string \<Rightarrow> pyval \<Rightarrow> nat \<Rightarrow> string" where
  "reported_key key block j =
     (if is_list block then key @ ''/['' @ str_nat j @ '']/'' else key)"

text \<open>
  The inner loop, lines 56 to 62, from index \<open>j\<close> on. \<open>None\<close> means the loop ran to its
  end; \<open>Some\<close> is the return or the exception that left the method. The condition is
  looked at only for an entry equal to \<open>"*"\<close>.
\<close>

fun scan_principals ::
  "pydict \<Rightarrow> pyval \<Rightarrow> string \<Rightarrow> nat \<Rightarrow> pyval list \<Rightarrow> check_state \<Rightarrow> outcome option" where
  "scan_principals statement block key j [] s = None"
| "scan_principals statement block key j (entry # rest) s =
     (if entry = PStr ''*'' then
        (case check_for_constrained_condition statement of
           Inl e \<Rightarrow> Some (Inl e, s)
         | Inr True \<Rightarrow> scan_principals statement block key (Suc j) rest s
         | Inr False \<Rightarrow>
             Some (Inr FAILED, s\<lparr>evaluated_keys := [reported_key key block j]\<rparr>))
      else scan_principals statement block key (Suc j) rest s)"

text \<open>The body of the outer loop, lines 50 to 62, for the statement at index \<open>i\<close>.\<close>

fun scan_statement :: "nat \<Rightarrow> pyval \<Rightarrow> check_state \<Rightarrow> outcome option" where
  "scan_statement i (PDict statement) s =
     (case map_of statement ''Principal'' of
        None \<Rightarrow> None
      | Some pr \<Rightarrow>
        (case py_iter (principal_block pr) of
           None \<Rightarrow> Some (Inl TypeError, s)
         | Some entries \<Rightarrow>
             scan_principals statement (principal_block pr)
               (evaluated_key i pr) 0 entries s))"
| "scan_statement i v s = Some (Inl AttributeError, s)"

text \<open>The outer loop, line 49, from index \<open>i\<close> on, and the final \<open>return\<close> of line 63.\<close>

fun scan_statements :: "nat \<Rightarrow> pyval list \<Rightarrow> check_state \<Rightarrow> outcome" where
  "scan_statements i [] s = (Inr PASSED, s)"
| "scan_statements i (statement # rest) s =
     (case scan_statement i statement s of
        Some r \<Rightarrow> r
      | None \<Rightarrow> scan_statements (Suc i) rest s)"

text \<open>Lines 48 to 63, on the working document; \<open>.keys()\<close> needs a dictionary.\<close>

fun scan_policy :: "pyval \<Rightarrow> check_state \<Rightarrow> outcome" where
  "scan_policy (PDict policy) s =
     (case map_of policy ''Statement'' of
        Some (PList statements) \<Rightarrow> scan_statements 0 statements s
      | _ \<Rightarrow> (Inr PASSED, s))"
| "scan_policy v s = (Inl AttributeError, s)"

text \<open>\<open>d.get(k)\<close>: the value, or \<open>None\<close> when the key is missing.\<close>

definition dict_get :: "pydict \<Rightarrow> string \<Rightarrow> pyval" where
  "dict_get d k = (case map_of d k of Some v \<Rightarrow> v | None \<Rightarrow> PNone)"

text \<open>
  The method itself. Two things it uses live outside this file and are parameters:
  \<open>loads\<close> is \<open>json.loads\<close>, giving the decoded value or the exception the decoder
  raises, and \<open>sls_match\<close> is \<open>re.match(SLS_DEFAULT_VAR_PATTERN, _)\<close> read as a truth
  value. The \<open>except\<close> clause of line 38 handles \<open>JSONDecodeError\<close> alone; any other
  exception of the decoder leaves the method. The configuration is a dictionary, as the
  signature says. Line 28 resets \<open>evaluated_keys\<close> before anything else.
\<close>

fun scan_policy_text ::
  "(string \<Rightarrow> error + pyval) \<Rightarrow> (string \<Rightarrow> bool) \<Rightarrow> pyval \<Rightarrow> check_state \<Rightarrow> outcome" where
  "scan_policy_text loads sls_match (PStr raw) s =
     (case loads raw of
        Inr document \<Rightarrow> scan_policy document s
      | Inl e \<Rightarrow>
          if e = JSONDecodeError then
            (Inr UNKNOWN,
             s\<lparr>logged := logged s @ [(if sls_match raw then INFO else ERROR, raw)]\<rparr>)
          else (Inl e, s))"
| "scan_policy_text loads sls_match policy_text s = scan_policy policy_text s"

fun scan_properties ::
  "(string \<Rightarrow> error + pyval) \<Rightarrow> (string \<Rightarrow> bool) \<Rightarrow> pyval \<Rightarrow> check_state \<Rightarrow> outcome" where
  "scan_properties loads sls_match (PDict properties) s =
     (if properties = [] then (Inr PASSED, s)
      else if \<not> truthy (dict_get properties ''RepositoryPolicyText'') then (Inr PASSED, s)
      else scan_policy_text loads sls_match (dict_get properties ''RepositoryPolicyText'') s)"
| "scan_properties loads sls_match properties s = (Inr PASSED, s)"

definition scan_resource_conf ::
  "(string \<Rightarrow> error + pyval) \<Rightarrow> (string \<Rightarrow> bool) \<Rightarrow> pydict \<Rightarrow> check_state \<Rightarrow> outcome" where
  "scan_resource_conf loads sls_match conf s =
     scan_properties loads sls_match (dict_get conf ''Properties'')
       (s\<lparr>evaluated_keys := [default_key]\<rparr>)"

section \<open>The specification's notions\<close>

text \<open>
  The qualifying condition as the specification words it: the statement has a
  \<open>Condition\<close> mapping, the first key present among \<open>StringEquals\<close>,
  \<open>ForAllValues:StringEquals\<close> and \<open>ForAnyValue:StringEquals\<close> wins, and its value is a
  mapping with the key \<open>aws:PrincipalOrgID\<close>.
\<close>

definition first_string_equals :: "pydict \<Rightarrow> pyval option" where
  "first_string_equals c =
     (if map_of c ''StringEquals'' \<noteq> None then map_of c ''StringEquals''
      else if map_of c ''ForAllValues:StringEquals'' \<noteq> None
        then map_of c ''ForAllValues:StringEquals''
      else map_of c ''ForAnyValue:StringEquals'')"

definition HasOrgConstraint :: "pydict \<Rightarrow> bool" where
  "HasOrgConstraint statement =
     (case map_of statement ''Condition'' of
        Some (PDict c) \<Rightarrow>
          (case first_string_equals c of
             Some (PDict m) \<Rightarrow> map_of m ''aws:PrincipalOrgID'' \<noteq> None
           | _ \<Rightarrow> False)
      | _ \<Rightarrow> False)"

text \<open>
  Steps 2 to 4 of the contract: the policy text, when \<open>Properties\<close> is a mapping that
  holds a non-empty \<open>RepositoryPolicyText\<close>, and the working document it normalises to,
  when there is one (a string that does not parse leaves none).
\<close>

definition policy_text :: "pydict \<Rightarrow> pyval option" where
  "policy_text conf =
     (case map_of conf ''Properties'' of
        Some (PDict props) \<Rightarrow>
          (case map_of props ''RepositoryPolicyText'' of
             Some v \<Rightarrow> if truthy v then Some v else None
           | None \<Rightarrow> None)
      | _ \<Rightarrow> None)"

definition working_document :: "(string \<Rightarrow> error + pyval) \<Rightarrow> pydict \<Rightarrow> pyval option" where
  "working_document loads conf =
     (case policy_text conf of
        Some (PStr raw) \<Rightarrow> (case loads raw of Inr document \<Rightarrow> Some document | Inl e \<Rightarrow> None)
      | Some v \<Rightarrow> Some v
      | None \<Rightarrow> None)"

text \<open>The statements of the working document, when its \<open>Statement\<close> is a sequence.\<close>

definition statements_of :: "(string \<Rightarrow> error + pyval) \<Rightarrow> pydict \<Rightarrow> pyval list" where
  "statements_of loads conf =
     (case working_document loads conf of
        Some (PDict d) \<Rightarrow>
          (case map_of d ''Statement'' of Some (PList statements) \<Rightarrow> statements | _ \<Rightarrow> [])
      | _ \<Rightarrow> [])"

definition principal_of :: "pyval \<Rightarrow> pyval option" where
  "principal_of statement =
     (case statement of PDict sd \<Rightarrow> map_of sd ''Principal'' | _ \<Rightarrow> None)"

text \<open>
  Step c of the contract: the principal entries of a block. A bare string is one entry,
  a sequence has its elements; a mapping without an \<open>AWS\<close> key, which the contract leaves
  open, is taken to list its keys.
\<close>

fun principal_entries :: "pyval \<Rightarrow> pyval list" where
  "principal_entries (PStr t) = [PStr t]"
| "principal_entries (PList xs) = xs"
| "principal_entries (PDict d) = map (\<lambda>kv. PStr (fst kv)) d"
| "principal_entries v = []"

text \<open>
  The invariant's violating statement: one with a principal entry equal to \<open>"*"\<close> and
  without a qualifying condition.
\<close>

definition violating_statement :: "pyval \<Rightarrow> bool" where
  "violating_statement statement =
     (case statement of
        PDict sd \<Rightarrow>
          (case map_of sd ''Principal'' of
             Some pr \<Rightarrow>
               PStr ''*'' \<in> set (principal_entries (principal_block pr)) \<and>
               \<not> HasOrgConstraint sd
           | None \<Rightarrow> False)
      | _ \<Rightarrow> False)"

definition has_violation :: "(string \<Rightarrow> error + pyval) \<Rightarrow> pydict \<Rightarrow> bool" where
  "has_violation loads conf = list_ex violating_statement (statements_of loads conf)"

text \<open>
  The shapes of the data model: a statement is a mapping, its principal block a string, a
  sequence or a mapping, its \<open>Condition\<close>, when present, a mapping; a document is a
  mapping whose statements, when \<open>Statement\<close> is a sequence, are such statements. A
  configuration is well formed when its policy text, if a string, is decoded to such a
  document or rejected with \<open>JSONDecodeError\<close>, and, if structured, is such a document.
\<close>

fun iterable :: "pyval \<Rightarrow> bool" where
  "iterable (PStr t) = True"
| "iterable (PList xs) = True"
| "iterable (PDict d) = True"
| "iterable v = False"

definition well_formed_statement :: "pyval \<Rightarrow> bool" where
  "well_formed_statement statement =
     (case statement of
        PDict sd \<Rightarrow>
          (case map_of sd ''Principal'' of
             None \<Rightarrow> True
           | Some pr \<Rightarrow> iterable (principal_block pr)) \<and>
          (case map_of sd ''Condition'' of
             None \<Rightarrow> True
           | Some c \<Rightarrow> is_dict c)
      | _ \<Rightarrow> False)"

definition well_formed_document :: "pyval \<Rightarrow> bool" where
  "well_formed_document document =
     (case document of
        PDict d \<Rightarrow>
          (case map_of d ''Statement'' of
             Some (PList statements) \<Rightarrow> list_all well_formed_statement statements
           | _ \<Rightarrow> True)
      | _ \<Rightarrow> False)"

definition well_formed_config :: "(string \<Rightarrow> error + pyval) \<Rightarrow> pydict \<Rightarrow> bool" where
  "well_formed_config loads conf =
     (case policy_text conf of
        None \<Rightarrow> True
      | Some (PStr raw) \<Rightarrow>
          (case loads raw of
             Inr document \<Rightarrow> well_formed_document document
           | Inl e \<Rightarrow> e = JSONDecodeError)
      | Some v \<Rightarrow> well_formed_document v)"

text \<open>
  A bare-string principal block is either the wildcard itself or has no \<open>*\<close> in it.
\<close>

definition whole_string_wildcard :: "pyval \<Rightarrow> bool" where
  "whole_string_wildcard statement =
     (case principal_of statement of
        Some pr \<Rightarrow>
          (case principal_block pr of
             PStr t \<Rightarrow> t = ''*'' \<or> CHR ''*'' \<notin> set t
           | _ \<Rightarrow> True)
      | None \<Rightarrow> True)"

text \<open>The format of the key reported with FAILED, as section 6 gives it.\<close>

definition failed_key :: "nat \<Rightarrow> bool \<Rightarrow> bool \<Rightarrow> nat \<Rightarrow> string" where
  "failed_key i aws seq j =
     ''Properties/RepositoryPolicyText/Statement/['' @ str_nat i @ '']/Principal'' @
     (if aws then ''/AWS'' else []) @
     (if seq then ''/['' @ str_nat j @ '']/'' else [])"

text \<open>
  Stand-ins for the two parameters at concrete inputs: \<open>json.loads\<close> on the few texts
  used below, and a placeholder pattern that accepts texts starting with \<open>${\<close>. An
  integer literal of more than 4300 digits \<open>1\<close> makes the decoder raise \<open>ValueError\<close>;
  every text not listed counts as rejected with \<open>JSONDecodeError\<close>.
\<close>

definition sample_loads :: "string \<Rightarrow> error + pyval" where
  "sample_loads raw =
     (if 4300 < length raw \<and> raw = replicate (length raw) (CHR ''1'') then Inl ValueError
      else if raw = ''[]'' then Inr (PList [])
      else if raw = ''{}'' then Inr (PDict [])
      else if raw = ''{\"Statement\": [{\"Principal\": \"*\"}]}''
        then Inr (PDict [(''Statement'', PList [PDict [(''Principal'', PStr ''*'')]])])
      else Inl JSONDecodeError)"

definition sample_match :: "string \<Rightarrow> bool" where
  "sample_match raw = starts_with ''${'' raw"

definition fresh_state :: check_state where
  "fresh_state = \<lparr>evaluated_keys = [], logged = []\<rparr>"

section \<open>The qualifying condition\<close>

lemma select_dict:
  "select_string_equals (PDict c) =
     Inr (case first_string_equals c of Some v \<Rightarrow> v | None \<Rightarrow> PNone)"
  by (auto simp: select_string_equals_def first_string_equals_def split: option.splits)

lemma select_Inr_dict:
  "select_string_equals v = Inr (PDict m) \<Longrightarrow> is_dict v"
  by (cases v) (auto simp: select_string_equals_def split: if_splits bool.splits)

lemma check_iff_HasOrgConstraint:
  "check_for_constrained_condition st = Inr True \<longleftrightarrow> HasOrgConstraint st"
proof (cases "map_of st ''Condition''")
  case None
  then show ?thesis by (simp add: check_for_constrained_condition_def HasOrgConstraint_def)
next
  case (Some cond)
  show ?thesis
  proof (cases cond)
    case (PDict c)
    with Some show ?thesis
      by (cases "first_string_equals c")
         (auto simp: check_for_constrained_condition_def HasOrgConstraint_def select_dict
               split: pyval.splits elim: has_org_id.elims)
  next
  qed (use Some in \<open>auto simp: check_for_constrained_condition_def HasOrgConstraint_def
        split: sum.splits  dest!: select_Inr_dict elim!: has_org_id.elims\<close>)
qed

lemma check_dict_condition:
  "map_of st ''Condition'' = Some (PDict c) \<Longrightarrow>
     check_for_constrained_condition st = Inr (HasOrgConstraint st)"
  using check_iff_HasOrgConstraint [of st]
  by (cases "HasOrgConstraint st") (auto simp: check_for_constrained_condition_def select_dict)

lemma check_no_condition:
  "map_of st ''Condition'' = None \<Longrightarrow> check_for_constrained_condition st = Inr False"
  by (simp add: check_for_constrained_condition_def)

section \<open>Evaluation at concrete inputs\<close>

lemma str_nat_digit: "n < 10 \<Longrightarrow> str_nat n = [digit_char n]"
  by (simp add: str_nat.simps)

lemma failed_key_eq:
  "reported_key (evaluated_key i pr) b j = failed_key i (has_aws pr) (is_list b) j"
  by (simp add: reported_key_def evaluated_key_def failed_key_def statement_key_def)

lemmas eval_defs =
  scan_resource_conf_def dict_get_def default_key_def statement_key_def evaluated_key_def
  reported_key_def check_for_constrained_condition_def select_string_equals_def
  str_nat_digit digit_char_def fresh_state_def sample_loads_def sample_match_def failed_key_def

lemmas spec_defs =
  policy_text_def working_document_def statements_of_def principal_of_def
  violating_statement_def has_violation_def well_formed_statement_def
  well_formed_document_def well_formed_config_def whole_string_wildcard_def
  HasOrgConstraint_def first_string_equals_def

section \<open>The inner loop\<close>

lemma sp_no_wildcard:
  "PStr ''*'' \<notin> set es \<Longrightarrow> scan_principals sd b k j es s = None"
  by (induction es arbitrary: j) auto

lemma sp_constrained:
  "check_for_constrained_condition sd = Inr True \<Longrightarrow> scan_principals sd b k j es s = None"
  by (induction es arbitrary: j) auto

lemma sp_first:
  "PStr ''*'' \<notin> set es \<Longrightarrow> check_for_constrained_condition sd = Inr False \<Longrightarrow>
     scan_principals sd b k j (es @ PStr ''*'' # later) s =
       Some (Inr FAILED, s\<lparr>evaluated_keys := [reported_key k b (j + length es)]\<rparr>)"
  by (induction es arbitrary: j) auto

lemma sp_FAILED_D:
  "scan_principals sd b k j es s = Some (Inr FAILED, s') \<Longrightarrow>
     \<exists>n<length es. es ! n = PStr ''*'' \<and> PStr ''*'' \<notin> set (take n es) \<and>
        s' = s\<lparr>evaluated_keys := [reported_key k b (j + n)]\<rparr> \<and>
        check_for_constrained_condition sd = Inr False"
proof (induction es arbitrary: j)
  case Nil
  then show ?case by simp
next
  case (Cons e es)
  show ?case
  proof (cases "e = PStr ''*'' \<and> check_for_constrained_condition sd = Inr False")
    case True
    with Cons.prems show ?thesis by (intro exI [of _ 0]) auto
  next
    case False
    with Cons.prems have "scan_principals sd b k (Suc j) es s = Some (Inr FAILED, s')"
      by (auto split: if_splits sum.splits bool.splits)
    from Cons.IH [OF this] obtain n where n: "n < length es" "es ! n = PStr ''*''"
      "PStr ''*'' \<notin> set (take n es)"
      "s' = s\<lparr>evaluated_keys := [reported_key k b (Suc j + n)]\<rparr>"
      "check_for_constrained_condition sd = Inr False" by blast
    with False have "e \<noteq> PStr ''*''" by simp
    with n show ?thesis by (intro exI [of _ "Suc n"]) auto
  qed
qed

lemma sp_verdict:
  "scan_principals sd b k j es s = Some r \<Longrightarrow> fst r \<noteq> Inr PASSED \<and> fst r \<noteq> Inr UNKNOWN"
  by (induction es arbitrary: j) (auto split: if_splits sum.splits bool.splits)

lemma sp_raise:
  "scan_principals sd b k j es s = Some (Inl e, s') \<Longrightarrow>
     check_for_constrained_condition sd = Inl e"
  by (induction es arbitrary: j) (auto split: if_splits sum.splits bool.splits)

lemma sp_state_independent:
  "map_option fst (scan_principals sd b k j es s) = map_option fst (scan_principals sd b k j es t) \<and>
   (evaluated_keys s = evaluated_keys t \<longrightarrow>
      map_option (\<lambda>r. evaluated_keys (snd r)) (scan_principals sd b k j es s) =
      map_option (\<lambda>r. evaluated_keys (snd r)) (scan_principals sd b k j es t))"
  by (induction es arbitrary: j) (auto split: sum.splits bool.splits)

lemma sp_logged:
  "scan_principals sd b k j es s = Some r \<Longrightarrow> logged (snd r) = logged s"
  by (induction es arbitrary: j) (auto split: if_splits sum.splits bool.splits)


lemma py_iter_iterable: "iterable v \<Longrightarrow> \<exists>es. py_iter v = Some es"
  by (cases v) auto

lemma check_well_formed:
  "(case map_of sd ''Condition'' of None \<Rightarrow> True | Some c \<Rightarrow> is_dict c) \<Longrightarrow>
     check_for_constrained_condition sd = Inr (HasOrgConstraint sd)"
proof (cases "map_of sd ''Condition''")
  case None
  then show ?thesis by (simp add: check_no_condition HasOrgConstraint_def)
next
  case (Some c)
  assume "case map_of sd ''Condition'' of None \<Rightarrow> True | Some c \<Rightarrow> is_dict c"
  with Some obtain cd where "c = PDict cd" by (cases c) auto
  with Some show ?thesis by (simp add: check_dict_condition)
qed

lemma sp_decided:
  "check_for_constrained_condition sd = Inr c \<Longrightarrow>
     (case scan_principals sd b k j es s of
        None \<Rightarrow> PStr ''*'' \<notin> set es \<or> c
      | Some r \<Rightarrow> PStr ''*'' \<in> set es \<and> \<not> c \<and> fst r = Inr FAILED)"
proof (induction es arbitrary: j)
  case Nil
  then show ?case by simp
next
  case (Cons e es)
  from Cons.IH [OF Cons.prems, of "Suc j"] Cons.prems show ?case
    by (cases c) (auto split: option.splits)
qed


section \<open>One statement\<close>

lemma ss_verdict:
  "scan_statement i st s = Some r \<Longrightarrow> fst r \<noteq> Inr PASSED \<and> fst r \<noteq> Inr UNKNOWN"
  by (cases st) (auto split: option.splits dest: sp_verdict)

lemma ss_logged:
  "scan_statement i st s = Some r \<Longrightarrow> logged (snd r) = logged s"
  by (cases st) (auto split: option.splits dest: sp_logged)

lemma ss_state_independent:
  "map_option fst (scan_statement i st s) = map_option fst (scan_statement i st t) \<and>
   (evaluated_keys s = evaluated_keys t \<longrightarrow>
      map_option (\<lambda>r. evaluated_keys (snd r)) (scan_statement i st s) =
      map_option (\<lambda>r. evaluated_keys (snd r)) (scan_statement i st t))"
proof (cases st)
  case (PDict sd)
  show ?thesis
  proof (cases "map_of sd ''Principal''")
    case None
    with PDict show ?thesis by simp
  next
    case (Some pr)
    show ?thesis
    proof (cases "py_iter (principal_block pr)")
      case None
      with PDict Some show ?thesis by simp
    next
      case es: (Some es)
      from sp_state_independent [of sd "principal_block pr" "evaluated_key i pr" 0 es s t]
        PDict Some es
      show ?thesis by simp
    qed
  qed
qed simp_all

lemma ss_FAILED_D:
  assumes "scan_statement i st s = Some (Inr FAILED, s')"
  shows "\<exists>pr es j. principal_of st = Some pr \<and> py_iter (principal_block pr) = Some es \<and>
           j < length es \<and> es ! j = PStr ''*'' \<and> PStr ''*'' \<notin> set (take j es) \<and>
           s' = s\<lparr>evaluated_keys := [reported_key (evaluated_key i pr) (principal_block pr) j]\<rparr>"
proof (cases st)
  case (PDict sd)
  with assms obtain pr es where pr: "map_of sd ''Principal'' = Some pr"
    and es: "py_iter (principal_block pr) = Some es"
    and sp: "scan_principals sd (principal_block pr) (evaluated_key i pr) 0 es s
               = Some (Inr FAILED, s')"
    by (auto split: option.splits)
  from sp_FAILED_D [OF sp] pr es PDict show ?thesis
    by (auto simp: principal_of_def)
qed (use assms in auto)

lemma ss_well_formed:
  assumes "well_formed_statement st"
  shows "case scan_statement i st s of
           None \<Rightarrow> True
         | Some r \<Rightarrow> fst r = Inr FAILED"
proof -
  from assms obtain sd where st: "st = PDict sd"
    by (cases st) (auto simp: well_formed_statement_def)
  from assms st have c: "check_for_constrained_condition sd = Inr (HasOrgConstraint sd)"
    by (intro check_well_formed) (simp add: well_formed_statement_def)
  show ?thesis
  proof (cases "map_of sd ''Principal''")
    case None
    with st show ?thesis by simp
  next
    case (Some pr)
    with assms st have "iterable (principal_block pr)"
      by (simp add: well_formed_statement_def)
    then obtain es where es: "py_iter (principal_block pr) = Some es"
      using py_iter_iterable by blast
    from sp_decided [OF c, where b = "principal_block pr" and k = "evaluated_key i pr" and j = 0 and es = es and s = s] st Some es
    show ?thesis by (auto split: option.splits)
  qed
qed

lemma entries_agree:
  "py_iter b = Some es \<Longrightarrow> (case b of PStr t \<Rightarrow> t = ''*'' \<or> CHR ''*'' \<notin> set t | _ \<Rightarrow> True) \<Longrightarrow>
     PStr ''*'' \<in> set es \<longleftrightarrow> PStr ''*'' \<in> set (principal_entries b)"
  by (cases b) auto

lemma ss_violating:
  assumes "well_formed_statement st" and "whole_string_wildcard st"
  shows "case scan_statement i st s of
           None \<Rightarrow> \<not> violating_statement st
         | Some r \<Rightarrow> violating_statement st \<and> fst r = Inr FAILED"
proof -
  from assms obtain sd where st: "st = PDict sd"
    by (cases st) (auto simp: well_formed_statement_def)
  from assms st have c: "check_for_constrained_condition sd = Inr (HasOrgConstraint sd)"
    by (intro check_well_formed) (simp add: well_formed_statement_def)
  show ?thesis
  proof (cases "map_of sd ''Principal''")
    case None
    with st show ?thesis by (simp add: violating_statement_def)
  next
    case (Some pr)
    with assms st have "iterable (principal_block pr)"
      by (simp add: well_formed_statement_def)
    then obtain es where es: "py_iter (principal_block pr) = Some es"
      using py_iter_iterable by blast
    from assms(2) st Some
    have "case principal_block pr of PStr t \<Rightarrow> t = ''*'' \<or> CHR ''*'' \<notin> set t | _ \<Rightarrow> True"
      by (simp add: whole_string_wildcard_def principal_of_def)
    from entries_agree [OF es this]
      sp_decided [OF c, where b = "principal_block pr" and k = "evaluated_key i pr" and j = 0 and es = es and s = s] st Some es
    show ?thesis by (auto simp: violating_statement_def split: option.splits)
  qed
qed


section \<open>The outer loop\<close>

lemma scs_verdict: "fst (scan_statements i stmts s) \<noteq> Inr UNKNOWN"
proof (induction stmts arbitrary: i)
  case Nil
  show ?case by simp
next
  case (Cons st stmts)
  show ?case
    using Cons.IH [of "Suc i"] ss_verdict [of i st s]
    by (cases "scan_statement i st s") simp_all
qed

lemma scs_logged: "logged (snd (scan_statements i stmts s)) = logged s"
proof (induction stmts arbitrary: i)
  case Nil
  show ?case by simp
next
  case (Cons st stmts)
  show ?case
    using Cons.IH [of "Suc i"] ss_logged [of i st s]
    by (cases "scan_statement i st s") simp_all
qed

lemma scs_passed_state:
  "fst (scan_statements i stmts s) = Inr PASSED \<Longrightarrow> snd (scan_statements i stmts s) = s"
proof (induction stmts arbitrary: i)
  case Nil
  show ?case by simp
next
  case (Cons st stmts)
  then show ?case
    using ss_verdict [of i st s]
    by (cases "scan_statement i st s") simp_all
qed

lemma scs_state_independent:
  "fst (scan_statements i stmts s) = fst (scan_statements i stmts t) \<and>
   (evaluated_keys s = evaluated_keys t \<longrightarrow>
      evaluated_keys (snd (scan_statements i stmts s)) =
      evaluated_keys (snd (scan_statements i stmts t)))"
proof (induction stmts arbitrary: i)
  case Nil
  show ?case by simp
next
  case (Cons st stmts)
  show ?case
  proof (cases "scan_statement i st s")
    case None
    with ss_state_independent [of i st s t] have "scan_statement i st t = None" by simp
    with None Cons.IH [of "Suc i"] show ?thesis by simp
  next
    case (Some r)
    with ss_state_independent [of i st s t] obtain r' where "scan_statement i st t = Some r'"
      by (cases "scan_statement i st t") simp_all
    with Some ss_state_independent [of i st s t] show ?thesis by simp
  qed
qed

lemma scs_FAILED_D:
  "scan_statements i stmts s = (Inr FAILED, s') \<Longrightarrow>
     \<exists>n pr es j. n < length stmts \<and> principal_of (stmts ! n) = Some pr \<and>
        py_iter (principal_block pr) = Some es \<and> j < length es \<and> es ! j = PStr ''*'' \<and>
        PStr ''*'' \<notin> set (take j es) \<and>
        s' = s\<lparr>evaluated_keys :=
               [reported_key (evaluated_key (i + n) pr) (principal_block pr) j]\<rparr>"
proof (induction stmts arbitrary: i)
  case Nil
  then show ?case by simp
next
  case (Cons st stmts)
  show ?case
  proof (cases "scan_statement i st s")
    case None
    with Cons.prems have "scan_statements (Suc i) stmts s = (Inr FAILED, s')" by simp
    from Cons.IH [OF this] obtain n pr es j where
      "n < length stmts" "principal_of (stmts ! n) = Some pr"
      "py_iter (principal_block pr) = Some es" "j < length es" "es ! j = PStr ''*''"
      "PStr ''*'' \<notin> set (take j es)"
      "s' = s\<lparr>evaluated_keys :=
               [reported_key (evaluated_key (Suc i + n) pr) (principal_block pr) j]\<rparr>"
      by blast
    then show ?thesis
      by (intro exI [of _ "Suc n"] exI [of _ pr] exI [of _ es] exI [of _ j]) simp
  next
    case (Some r)
    with Cons.prems have "scan_statement i st s = Some (Inr FAILED, s')" by simp
    from ss_FAILED_D [OF this] obtain pr es j where
      "principal_of st = Some pr"
      "py_iter (principal_block pr) = Some es" "j < length es" "es ! j = PStr ''*''"
      "PStr ''*'' \<notin> set (take j es)"
      "s' = s\<lparr>evaluated_keys := [reported_key (evaluated_key i pr) (principal_block pr) j]\<rparr>"
      by blast
    then show ?thesis
      by (intro exI [of _ 0] exI [of _ pr] exI [of _ es] exI [of _ j]) simp
  qed
qed

lemma scs_well_formed:
  "list_all well_formed_statement stmts \<Longrightarrow>
     fst (scan_statements i stmts s) = Inr PASSED \<or>
     fst (scan_statements i stmts s) = Inr FAILED"
proof (induction stmts arbitrary: i)
  case Nil
  show ?case by simp
next
  case (Cons st stmts)
  then have wf: "well_formed_statement st" and rest: "list_all well_formed_statement stmts"
    by simp_all
  from ss_well_formed [OF wf, of i s] Cons.IH [OF rest, of "Suc i"] show ?case
    by (cases "scan_statement i st s") simp_all
qed

lemma scs_violating:
  "list_all well_formed_statement stmts \<Longrightarrow> list_all whole_string_wildcard stmts \<Longrightarrow>
     fst (scan_statements i stmts s) =
       Inr (if list_ex violating_statement stmts then FAILED else PASSED)"
proof (induction stmts arbitrary: i)
  case Nil
  show ?case by simp
next
  case (Cons st stmts)
  then have wf: "well_formed_statement st" and w: "whole_string_wildcard st"
    and rest: "list_all well_formed_statement stmts" "list_all whole_string_wildcard stmts"
    by simp_all
  from ss_violating [OF wf w, of i s] Cons.IH [OF rest, of "Suc i"] show ?case
    by (cases "scan_statement i st s") simp_all
qed

section \<open>The method\<close>

lemma src_policy_text:
  "scan_resource_conf loads sls conf s =
     (case policy_text conf of
        None \<Rightarrow> (Inr PASSED, s\<lparr>evaluated_keys := [default_key]\<rparr>)
      | Some v \<Rightarrow> scan_policy_text loads sls v (s\<lparr>evaluated_keys := [default_key]\<rparr>))"
proof (cases "map_of conf ''Properties''")
  case None
  then show ?thesis by (simp add: scan_resource_conf_def policy_text_def dict_get_def)
next
  case (Some p)
  show ?thesis
  proof (cases p)
    case (PDict props)
    show ?thesis
    proof (cases "map_of props ''RepositoryPolicyText''")
      case None
      with Some PDict show ?thesis
        by (simp add: scan_resource_conf_def policy_text_def dict_get_def)
    next
      case v: (Some v)
      then have "props \<noteq> []" by auto
      with Some PDict v show ?thesis
        by (simp add: scan_resource_conf_def policy_text_def dict_get_def)
    qed
  qed (use Some in \<open>simp_all add: scan_resource_conf_def policy_text_def dict_get_def\<close>)
qed

lemma src_working:
  "working_document loads conf = Some doc \<Longrightarrow>
     scan_resource_conf loads sls conf s =
       scan_policy doc (s\<lparr>evaluated_keys := [default_key]\<rparr>)"
proof -
  assume w: "working_document loads conf = Some doc"
  then obtain v where v: "policy_text conf = Some v"
    by (cases "policy_text conf") (simp_all add: working_document_def)
  with w show ?thesis
    by (cases v) (auto simp: src_policy_text working_document_def split: sum.splits)
qed

lemma src_statements:
  "statements_of loads conf = st # rest \<Longrightarrow>
     scan_resource_conf loads sls conf s =
       scan_statements 0 (st # rest) (s\<lparr>evaluated_keys := [default_key]\<rparr>)"
proof -
  assume a: "statements_of loads conf = st # rest"
  then obtain d where d: "working_document loads conf = Some (PDict d)"
    and l: "map_of d ''Statement'' = Some (PList (st # rest))"
    by (auto simp: statements_of_def split: option.splits pyval.splits)
  from src_working [OF d] l show ?thesis by simp
qed

lemma src_no_document:
  "working_document loads conf = None \<Longrightarrow>
     fst (scan_resource_conf loads sls conf s) \<noteq> Inr FAILED \<and>
     (well_formed_config loads conf \<longrightarrow>
        fst (scan_resource_conf loads sls conf s) = Inr PASSED \<or>
        fst (scan_resource_conf loads sls conf s) = Inr UNKNOWN) \<and>
     evaluated_keys (snd (scan_resource_conf loads sls conf s)) = [default_key]"
proof -
  assume w: "working_document loads conf = None"
  show ?thesis
  proof (cases "policy_text conf")
    case None
    then show ?thesis by (simp add: src_policy_text)
  next
    case (Some v)
    with w show ?thesis
      by (cases v)
         (auto simp: src_policy_text working_document_def well_formed_config_def
               split: sum.splits)
  qed
qed

lemma src_decoder_raises:
  "policy_text conf = Some (PStr raw) \<Longrightarrow> loads raw = Inl e \<Longrightarrow>
     e \<noteq> JSONDecodeError \<Longrightarrow>
     scan_resource_conf loads sls conf s = (Inl e, s\<lparr>evaluated_keys := [default_key]\<rparr>)"
  by (simp add: src_policy_text)

lemma src_decoder_rejects:
  "policy_text conf = Some (PStr raw) \<Longrightarrow> loads raw = Inl JSONDecodeError \<Longrightarrow>
     scan_resource_conf loads sls conf s =
       (Inr UNKNOWN,
        s\<lparr>evaluated_keys := [default_key],
          logged := logged s @ [(if sls raw then INFO else ERROR, raw)]\<rparr>)"
  by (simp add: src_policy_text)

lemma src_non_mapping_document:
  "working_document loads conf = Some doc \<Longrightarrow> \<not> is_dict doc \<Longrightarrow>
     fst (scan_resource_conf loads sls conf s) = Inl AttributeError"
  by (cases doc) (simp_all add: src_working)

lemma well_formed_config_document:
  "well_formed_config loads conf \<Longrightarrow> working_document loads conf = Some doc \<Longrightarrow>
     well_formed_document doc"
proof -
  assume wf: "well_formed_config loads conf" and w: "working_document loads conf = Some doc"
  then obtain v where v: "policy_text conf = Some v"
    by (cases "policy_text conf") (simp_all add: working_document_def)
  with wf w show ?thesis
    by (cases v) (auto simp: well_formed_config_def working_document_def split: sum.splits)
qed

lemma scan_policy_FAILED:
  "fst (scan_policy doc s) = Inr FAILED \<Longrightarrow>
     \<exists>d stmts. doc = PDict d \<and> map_of d ''Statement'' = Some (PList stmts) \<and>
       scan_policy doc s = scan_statements 0 stmts s"
  by (cases doc) (auto split: option.splits pyval.splits)

lemma src_FAILED:
  assumes "fst (scan_resource_conf loads sls conf s) = Inr FAILED"
  shows "scan_resource_conf loads sls conf s =
           scan_statements 0 (statements_of loads conf) (s\<lparr>evaluated_keys := [default_key]\<rparr>)"
proof (cases "working_document loads conf")
  case None
  from src_no_document [OF this, of sls s] assms show ?thesis by simp
next
  case (Some doc)
  from src_working [OF this, of sls s] assms
  have "fst (scan_policy doc (s\<lparr>evaluated_keys := [default_key]\<rparr>)) = Inr FAILED" by simp
  from scan_policy_FAILED [OF this] Some src_working [OF Some, of sls s] show ?thesis
    by (auto simp: statements_of_def)
qed


lemma statements_of_no_document:
  "working_document loads conf = None \<Longrightarrow> statements_of loads conf = []"
  by (simp add: statements_of_def)

lemma src_well_formed_document:
  assumes w: "working_document loads conf = Some doc" and wf: "well_formed_document doc"
  shows "scan_resource_conf loads sls conf s =
           scan_statements 0 (statements_of loads conf) (s\<lparr>evaluated_keys := [default_key]\<rparr>)
         \<and> list_all well_formed_statement (statements_of loads conf)"
proof -
  from wf obtain d where d: "doc = PDict d"
    by (cases doc) (simp_all add: well_formed_document_def)
  show ?thesis
  proof (cases "map_of d ''Statement''")
    case None
    with w d show ?thesis by (simp add: src_working statements_of_def)
  next
    case (Some v)
    with w d wf show ?thesis
      by (cases v) (simp_all add: src_working statements_of_def well_formed_document_def)
  qed
qed

lemma src_state_independent:
  "fst (scan_resource_conf loads sls conf t) = fst (scan_resource_conf loads sls conf s) \<and>
   evaluated_keys (snd (scan_resource_conf loads sls conf t)) =
     evaluated_keys (snd (scan_resource_conf loads sls conf s))"
proof (cases "working_document loads conf")
  case None
  show ?thesis
  proof (cases "policy_text conf")
    case n: None
    then show ?thesis by (simp add: src_policy_text)
  next
    case (Some v)
    with None show ?thesis
      by (cases v) (auto simp: src_policy_text working_document_def split: sum.splits)
  qed
next
  case (Some doc)
  let ?s = "s\<lparr>evaluated_keys := [default_key]\<rparr>" and ?t = "t\<lparr>evaluated_keys := [default_key]\<rparr>"
  have "fst (scan_policy doc ?t) = fst (scan_policy doc ?s) \<and>
        evaluated_keys (snd (scan_policy doc ?t)) = evaluated_keys (snd (scan_policy doc ?s))"
  proof (cases doc)
    case (PDict d)
    show ?thesis
    proof (cases "map_of d ''Statement''")
      case None
      with PDict show ?thesis by simp
    next
      case v: (Some v)
      with PDict scs_state_independent [of 0 _ ?t ?s] show ?thesis by (cases v) simp_all
    qed
  qed simp_all
  with Some show ?thesis by (simp add: src_working)
qed

lemma src_first_statement_failure:
  assumes st: "statements_of loads conf = PDict sd # rest"
    and pr: "map_of sd ''Principal'' = Some pr"
    and es: "py_iter (principal_block pr) = Some (es @ PStr ''*'' # later)"
    and first: "PStr ''*'' \<notin> set es"
    and unc: "check_for_constrained_condition sd = Inr False"
  shows "scan_resource_conf loads sls conf s =
           (Inr FAILED,
            s\<lparr>evaluated_keys :=
                [failed_key 0 (has_aws pr) (is_list (principal_block pr)) (length es)]\<rparr>)"
proof -
  let ?s = "s\<lparr>evaluated_keys := [default_key]\<rparr>"
  from src_statements [OF st, of sls s]
  have "scan_resource_conf loads sls conf s = scan_statements 0 (PDict sd # rest) ?s"
    by simp
  also have "\<dots> = (Inr FAILED,
      ?s\<lparr>evaluated_keys :=
          [reported_key (evaluated_key 0 pr) (principal_block pr) (0 + length es)]\<rparr>)"
    using pr es sp_first [OF first unc] by simp
  finally show ?thesis by (simp add: failed_key_eq)
qed

section \<open>Claims\<close>

text \<open>
  C3. \<open>check_for_constrained_condition\<close> returns true exactly when the statement has a
  \<open>Condition\<close> mapping and the value of the first key present among \<open>StringEquals\<close>,
  \<open>ForAllValues:StringEquals\<close>, \<open>ForAnyValue:StringEquals\<close>, in that order, is a mapping
  with the key \<open>aws:PrincipalOrgID\<close>. In particular, when an earlier key is present and
  its value lacks \<open>aws:PrincipalOrgID\<close>, the method returns false whatever the later
  keys hold.
\<close>

theorem constrained_condition_first_present_key:
  "(check_for_constrained_condition st = Inr True \<longleftrightarrow> HasOrgConstraint st) \<and>
   (\<forall>c v. map_of st ''Condition'' = Some (PDict c) \<and> map_of c ''StringEquals'' = Some v \<and>
        \<not> has_org_id v \<longrightarrow> check_for_constrained_condition st = Inr False) \<and>
   (\<forall>c v. map_of st ''Condition'' = Some (PDict c) \<and> map_of c ''StringEquals'' = None \<and>
        map_of c ''ForAllValues:StringEquals'' = Some v \<and> \<not> has_org_id v \<longrightarrow>
        check_for_constrained_condition st = Inr False)"
proof (intro conjI allI impI)
  show "check_for_constrained_condition st = Inr True \<longleftrightarrow> HasOrgConstraint st"
    by (rule check_iff_HasOrgConstraint)
next
  fix c v
  assume "map_of st ''Condition'' = Some (PDict c) \<and> map_of c ''StringEquals'' = Some v \<and>
        \<not> has_org_id v"
  then show "check_for_constrained_condition st = Inr False"
    by (simp add: check_for_constrained_condition_def select_dict first_string_equals_def)
next
  fix c v
  assume "map_of st ''Condition'' = Some (PDict c) \<and> map_of c ''StringEquals'' = None \<and>
        map_of c ''ForAllValues:StringEquals'' = Some v \<and> \<not> has_org_id v"
  then show "check_for_constrained_condition st = Inr False"
    by (simp add: check_for_constrained_condition_def select_dict first_string_equals_def)
qed

theorem constrained_condition_first_present_key_witness:
  "\<not> HasOrgConstraint
       [(''Condition'', PDict [(''StringEquals'', PDict [(''aws:SourceIp'', PStr ''10.0.0.0/8'')]),
          (''ForAnyValue:StringEquals'', PDict [(''aws:PrincipalOrgID'', PStr ''o-1'')])])] \<and>
   check_for_constrained_condition
       [(''Condition'', PDict [(''StringEquals'', PDict [(''aws:SourceIp'', PStr ''10.0.0.0/8'')]),
          (''ForAnyValue:StringEquals'', PDict [(''aws:PrincipalOrgID'', PStr ''o-1'')])])]
     = Inr False"
  using constrained_condition_first_present_key
    [of "[(''Condition'', PDict [(''StringEquals'', PDict [(''aws:SourceIp'', PStr ''10.0.0.0/8'')]),
          (''ForAnyValue:StringEquals'', PDict [(''aws:PrincipalOrgID'', PStr ''o-1'')])])]"]
  by (simp add: HasOrgConstraint_def first_string_equals_def)

text \<open>
  C1, as the claim states it, fails: with a statement that is not a mapping ahead of a
  statement whose principal is \<open>"*"\<close>, the document does hold a violating statement,
  yet the method leaves with an \<open>AttributeError\<close> instead of FAILED.
\<close>

theorem failed_iff_violation_counterexample:
  "has_violation sample_loads
       [(''Properties'', PDict [(''RepositoryPolicyText'',
          PDict [(''Statement'',
            PList [PStr ''Allow'', PDict [(''Principal'', PStr ''*'')]])])])] \<and>
   fst (scan_resource_conf sample_loads sample_match
       [(''Properties'', PDict [(''RepositoryPolicyText'',
          PDict [(''Statement'',
            PList [PStr ''Allow'', PDict [(''Principal'', PStr ''*'')]])])])]
       fresh_state) = Inl AttributeError"
  by (simp add: eval_defs spec_defs)

text \<open>
  C1, amended. For every well-formed configuration (the policy text, if a string, is
  decoded or rejected with \<open>JSONDecodeError\<close>, and the working document has the shapes
  of the data model) in which every bare-string principal block either is \<open>"*"\<close> or
  contains no \<open>*\<close>, the method returns FAILED exactly when the document holds a
  statement with a principal entry equal to \<open>"*"\<close> and without a qualifying condition;
  every other such configuration yields PASSED or UNKNOWN.
\<close>

theorem failed_iff_violation_on_well_formed:
  assumes "well_formed_config loads conf"
    and "list_all whole_string_wildcard (statements_of loads conf)"
  shows "(fst (scan_resource_conf loads sls conf s) = Inr FAILED \<longleftrightarrow> has_violation loads conf) \<and>
         (\<not> has_violation loads conf \<longrightarrow>
            fst (scan_resource_conf loads sls conf s) = Inr PASSED \<or>
            fst (scan_resource_conf loads sls conf s) = Inr UNKNOWN)"
proof (cases "working_document loads conf")
  case None
  from src_no_document [OF None, of sls s] statements_of_no_document [OF None] assms(1)
  show ?thesis by (auto simp: has_violation_def)
next
  case (Some doc)
  from well_formed_config_document [OF assms(1) Some]
  have "well_formed_document doc" .
  from src_well_formed_document [OF Some this, of sls s]
    scs_violating [OF _ assms(2), of 0 "s\<lparr>evaluated_keys := [default_key]\<rparr>"]
  show ?thesis by (simp add: has_violation_def)
qed

theorem failed_iff_violation_on_well_formed_witness:
  "well_formed_config sample_loads
       [(''Properties'', PDict [(''RepositoryPolicyText'',
          PDict [(''Statement'', PList [PDict [(''Principal'',
            PDict [(''AWS'', PList [PStr ''111111111111'', PStr ''*''])])]])])])] \<and>
   list_all whole_string_wildcard (statements_of sample_loads
       [(''Properties'', PDict [(''RepositoryPolicyText'',
          PDict [(''Statement'', PList [PDict [(''Principal'',
            PDict [(''AWS'', PList [PStr ''111111111111'', PStr ''*''])])]])])])]) \<and>
   has_violation sample_loads
       [(''Properties'', PDict [(''RepositoryPolicyText'',
          PDict [(''Statement'', PList [PDict [(''Principal'',
            PDict [(''AWS'', PList [PStr ''111111111111'', PStr ''*''])])]])])])] \<and>
   fst (scan_resource_conf sample_loads sample_match
       [(''Properties'', PDict [(''RepositoryPolicyText'',
          PDict [(''Statement'', PList [PDict [(''Principal'',
            PDict [(''AWS'', PList [PStr ''111111111111'', PStr ''*''])])]])])])]
       fresh_state) = Inr FAILED"
  using failed_iff_violation_on_well_formed [of sample_loads
       "[(''Properties'', PDict [(''RepositoryPolicyText'',
          PDict [(''Statement'', PList [PDict [(''Principal'',
            PDict [(''AWS'', PList [PStr ''111111111111'', PStr ''*''])])]])])])]"
       sample_match fresh_state]
  by (simp add: spec_defs)

text \<open>
  C2, as the claim states it, fails: a policy text that decodes to a JSON list reaches
  \<open>policy_text.keys()\<close> and the method leaves with an \<open>AttributeError\<close>.
\<close>

theorem non_mapping_document_raises:
  "fst (scan_resource_conf sample_loads sample_match
       [(''Properties'', PDict [(''RepositoryPolicyText'', PStr ''[]'')])]
       fresh_state) = Inl AttributeError"
  by (simp add: eval_defs)

text \<open>
  C2, amended. The method is total: every call ends with a verdict or with an exception.
  For every well-formed configuration (the policy text, if a string, is decoded or
  rejected with \<open>JSONDecodeError\<close>; the working document, if there is one, is a mapping
  whose statements, when \<open>Statement\<close> is a sequence, are mappings with a principal block
  that is a string, a sequence or a mapping and a \<open>Condition\<close> that, when present, is a
  mapping) it returns one of the verdicts PASSED, FAILED, UNKNOWN and raises nothing. It
  does raise on other inputs: a working document that is not a mapping always gives an
  \<open>AttributeError\<close>, and an exception of the decoder other than \<open>JSONDecodeError\<close>
  leaves the method as it is.
\<close>

theorem verdict_on_well_formed:
  "(well_formed_config loads conf \<longrightarrow>
      fst (scan_resource_conf loads sls conf s) = Inr PASSED \<or>
      fst (scan_resource_conf loads sls conf s) = Inr FAILED \<or>
      fst (scan_resource_conf loads sls conf s) = Inr UNKNOWN) \<and>
   (working_document loads conf = Some doc \<and> \<not> is_dict doc \<longrightarrow>
      fst (scan_resource_conf loads sls conf s) = Inl AttributeError) \<and>
   (policy_text conf = Some (PStr raw) \<and> loads raw = Inl e \<and> e \<noteq> JSONDecodeError \<longrightarrow>
      fst (scan_resource_conf loads sls conf s) = Inl e)"
proof (intro conjI impI)
  assume wf: "well_formed_config loads conf"
  show "fst (scan_resource_conf loads sls conf s) = Inr PASSED \<or>
      fst (scan_resource_conf loads sls conf s) = Inr FAILED \<or>
      fst (scan_resource_conf loads sls conf s) = Inr UNKNOWN"
  proof (cases "working_document loads conf")
    case None
    from src_no_document [OF None, of sls s] wf show ?thesis by blast
  next
    case (Some d)
    from well_formed_config_document [OF wf Some] have "well_formed_document d" .
    from src_well_formed_document [OF Some this, of sls s]
      scs_well_formed [of "statements_of loads conf" 0 "s\<lparr>evaluated_keys := [default_key]\<rparr>"]
    show ?thesis by auto
  qed
next
  assume "working_document loads conf = Some doc \<and> \<not> is_dict doc"
  then show "fst (scan_resource_conf loads sls conf s) = Inl AttributeError"
    by (simp add: src_non_mapping_document)
next
  assume "policy_text conf = Some (PStr raw) \<and> loads raw = Inl e \<and> e \<noteq> JSONDecodeError"
  then show "fst (scan_resource_conf loads sls conf s) = Inl e"
    by (simp add: src_decoder_raises)
qed

theorem verdict_on_well_formed_witness:
  "well_formed_config sample_loads
       [(''Properties'', PDict [(''RepositoryPolicyText'',
          PStr ''{\"Statement\": [{\"Principal\": \"*\"}]}'')])] \<and>
   fst (scan_resource_conf sample_loads sample_match
       [(''Properties'', PDict [(''RepositoryPolicyText'',
          PStr ''{\"Statement\": [{\"Principal\": \"*\"}]}'')])]
       fresh_state) = Inr FAILED \<and>
   well_formed_config sample_loads
       [(''Properties'', PDict [(''RepositoryPolicyText'', PStr ''{not valid json'')])] \<and>
   fst (scan_resource_conf sample_loads sample_match
       [(''Properties'', PDict [(''RepositoryPolicyText'', PStr ''{not valid json'')])]
       fresh_state) = Inr UNKNOWN"
  using
    verdict_on_well_formed [of sample_loads
       "[(''Properties'', PDict [(''RepositoryPolicyText'',
          PStr ''{\"Statement\": [{\"Principal\": \"*\"}]}'')])]"
       sample_match fresh_state]
    verdict_on_well_formed [of sample_loads
       "[(''Properties'', PDict [(''RepositoryPolicyText'', PStr ''{not valid json'')])]"
       sample_match fresh_state]
  by (simp add: eval_defs spec_defs)

text \<open>
  C4. The claim holds that a bare-string principal block is one entry, a wildcard only
  when the whole string is \<open>"*"\<close>. The loop of line 56 walks the characters of the
  string instead: an ARN that ends in \<open>*\<close> is no violating statement in the claim's
  sense, and the method returns FAILED for it.
\<close>

theorem bare_string_scanned_by_character:
  "\<not> has_violation sample_loads
       [(''Properties'', PDict [(''RepositoryPolicyText'',
          PDict [(''Statement'', PList [PDict [(''Principal'',
            PDict [(''AWS'', PStr ''arn:aws:iam::111111111111:role/*'')])]])])])] \<and>
   scan_resource_conf sample_loads sample_match
       [(''Properties'', PDict [(''RepositoryPolicyText'',
          PDict [(''Statement'', PList [PDict [(''Principal'',
            PDict [(''AWS'', PStr ''arn:aws:iam::111111111111:role/*'')])]])])])]
       fresh_state
     = (Inr FAILED,
        \<lparr>evaluated_keys = [''Properties/RepositoryPolicyText/Statement/[0]/Principal/AWS''],
         logged = []\<rparr>)"
  by (simp add: eval_defs spec_defs)

text \<open>
  C5. The claim holds that a safe earlier statement does not keep the scan from reaching
  and reporting a later violating one. A first statement whose principal is the bare
  string \<open>arn:aws:iam::111111111111:user/*\<close> is no violating statement (its one entry
  is not \<open>"*"\<close>), the second statement is; the method reports the first, because the
  loop of line 56 walks the characters of the string, and never reaches the second.
\<close>

theorem later_violation_hidden_by_bare_string:
  "\<not> violating_statement
       (PDict [(''Principal'', PDict [(''AWS'', PStr ''arn:aws:iam::111111111111:user/*'')])]) \<and>
   violating_statement (PDict [(''Principal'', PStr ''*'')]) \<and>
   scan_resource_conf sample_loads sample_match
       [(''Properties'', PDict [(''RepositoryPolicyText'', PDict [(''Statement'',
          PList [PDict [(''Principal'',
                   PDict [(''AWS'', PStr ''arn:aws:iam::111111111111:user/*'')])],
                 PDict [(''Principal'', PStr ''*'')]])])])]
       fresh_state
     = (Inr FAILED,
        \<lparr>evaluated_keys = [''Properties/RepositoryPolicyText/Statement/[0]/Principal/AWS''],
         logged = []\<rparr>)"
  by (simp add: eval_defs spec_defs)

text \<open>
  C6, as the claim states it, fails: an integer literal of 5000 digits is a policy text
  that does not parse, but the decoder leaves with a \<open>ValueError\<close>, which line 38 does
  not catch, so the method raises instead of returning UNKNOWN.
\<close>

theorem decoder_value_error_raises:
  "sample_loads (replicate 5000 (CHR ''1'')) = Inl ValueError \<and>
   fst (scan_resource_conf sample_loads sample_match
       [(''Properties'',
         PDict [(''RepositoryPolicyText'', PStr (replicate 5000 (CHR ''1'')))])]
       fresh_state) = Inl ValueError"
  by (simp add: eval_defs)

text \<open>
  C6, amended. For every configuration whose \<open>RepositoryPolicyText\<close> is a string (present,
  hence not empty) that the decoder fails on: when the failure is a \<open>JSONDecodeError\<close>
  the method returns UNKNOWN with the default evaluated key, whether or not the string
  matches the deferred-variable pattern (the pattern only chooses the level of the log
  record); when it is any other exception, that exception leaves the method; in neither
  case is the verdict FAILED.
\<close>

theorem undecodable_text_outcome:
  assumes "map_of conf ''Properties'' = Some (PDict props)"
    and "map_of props ''RepositoryPolicyText'' = Some (PStr raw)"
    and "raw \<noteq> []"
    and "loads raw = Inl e"
  shows "(e = JSONDecodeError \<longrightarrow>
            scan_resource_conf loads sls conf s =
              (Inr UNKNOWN,
               s\<lparr>evaluated_keys := [''Properties/RepositoryPolicyText/Statement''],
                 logged := logged s @ [(if sls raw then INFO else ERROR, raw)]\<rparr>)) \<and>
         (e \<noteq> JSONDecodeError \<longrightarrow>
            scan_resource_conf loads sls conf s =
              (Inl e, s\<lparr>evaluated_keys := [''Properties/RepositoryPolicyText/Statement'']\<rparr>)) \<and>
         fst (scan_resource_conf loads sls conf s) \<noteq> Inr FAILED"
proof -
  from assms have pt: "policy_text conf = Some (PStr raw)"
    by (simp add: policy_text_def)
  show ?thesis
  proof (cases "e = JSONDecodeError")
    case True
    with assms(4) src_decoder_rejects [OF pt, of loads sls s] show ?thesis
      by (simp add: default_key_def)
  next
    case False
    with assms(4) src_decoder_raises [OF pt, of loads e sls s] show ?thesis
      by (simp add: default_key_def)
  qed
qed

theorem undecodable_text_outcome_witness:
  "scan_resource_conf sample_loads sample_match
       [(''Properties'', PDict [(''RepositoryPolicyText'', PStr ''${self:custom.policy}'')])]
       fresh_state
     = (Inr UNKNOWN,
        \<lparr>evaluated_keys = [''Properties/RepositoryPolicyText/Statement''],
         logged = [(INFO, ''${self:custom.policy}'')]\<rparr>) \<and>
   scan_resource_conf sample_loads sample_match
       [(''Properties'', PDict [(''RepositoryPolicyText'', PStr ''{not valid json'')])]
       fresh_state
     = (Inr UNKNOWN,
        \<lparr>evaluated_keys = [''Properties/RepositoryPolicyText/Statement''],
         logged = [(ERROR, ''{not valid json'')]\<rparr>)"
  using
    undecodable_text_outcome [of
      "[(''Properties'', PDict [(''RepositoryPolicyText'', PStr ''${self:custom.policy}'')])]"
      "[(''RepositoryPolicyText'', PStr ''${self:custom.policy}'')]"
      "''${self:custom.policy}''" sample_loads JSONDecodeError sample_match fresh_state]
    undecodable_text_outcome [of
      "[(''Properties'', PDict [(''RepositoryPolicyText'', PStr ''{not valid json'')])]"
      "[(''RepositoryPolicyText'', PStr ''{not valid json'')]"
      "''{not valid json''" sample_loads JSONDecodeError sample_match fresh_state]
  by (simp add: sample_loads_def sample_match_def fresh_state_def)

text \<open>
  C7. When \<open>Properties\<close> is absent or not a mapping, or \<open>RepositoryPolicyText\<close> is absent
  or empty, or the working document is a mapping without a \<open>Statement\<close> field or with a
  \<open>Statement\<close> that is not a sequence, the method returns PASSED with the default
  evaluated key \<open>Properties/RepositoryPolicyText/Statement\<close>.
\<close>

theorem missing_policy_passed:
  assumes "map_of conf ''Properties'' = None \<or>
           (\<exists>p. map_of conf ''Properties'' = Some p \<and> \<not> is_dict p) \<or>
           (\<exists>props. map_of conf ''Properties'' = Some (PDict props) \<and>
              (map_of props ''RepositoryPolicyText'' = None \<or>
               (\<exists>v. map_of props ''RepositoryPolicyText'' = Some v \<and> \<not> truthy v))) \<or>
           (\<exists>d. working_document loads conf = Some (PDict d) \<and>
              (map_of d ''Statement'' = None \<or>
               (\<exists>v. map_of d ''Statement'' = Some v \<and> \<not> is_list v)))"
  shows "scan_resource_conf loads sls conf s =
           (Inr PASSED, s\<lparr>evaluated_keys := [''Properties/RepositoryPolicyText/Statement'']\<rparr>)"
  using assms
proof (elim disjE exE conjE)
  assume "map_of conf ''Properties'' = None"
  then show ?thesis by (simp add: src_policy_text policy_text_def default_key_def)
next
  fix p
  assume "map_of conf ''Properties'' = Some p" "\<not> is_dict p"
  then show ?thesis
    by (cases p) (simp_all add: src_policy_text policy_text_def default_key_def)
next
  fix props
  assume "map_of conf ''Properties'' = Some (PDict props)"
    "map_of props ''RepositoryPolicyText'' = None"
  then show ?thesis by (simp add: src_policy_text policy_text_def default_key_def)
next
  fix props v
  assume "map_of conf ''Properties'' = Some (PDict props)"
    "map_of props ''RepositoryPolicyText'' = Some v" "\<not> truthy v"
  then show ?thesis by (simp add: src_policy_text policy_text_def default_key_def)
next
  fix d
  assume "working_document loads conf = Some (PDict d)" "map_of d ''Statement'' = None"
  then show ?thesis by (simp add: src_working default_key_def)
next
  fix d v
  assume "working_document loads conf = Some (PDict d)"
    "map_of d ''Statement'' = Some v" "\<not> is_list v"
  then show ?thesis by (cases v) (simp_all add: src_working default_key_def)
qed

theorem missing_policy_passed_witness:
  "scan_resource_conf sample_loads sample_match
       [(''Properties'', PDict [(''RepositoryPolicyText'',
          PDict [(''Version'', PStr ''2012-10-17''), (''Statement'', PStr ''none'')])])]
       fresh_state
     = (Inr PASSED,
        \<lparr>evaluated_keys = [''Properties/RepositoryPolicyText/Statement''], logged = []\<rparr>) \<and>
   scan_resource_conf sample_loads sample_match
       [(''Type'', PStr ''AWS::ECR::Repository'')]
       (\<lparr>evaluated_keys = [''stale''], logged = []\<rparr>)
     = (Inr PASSED,
        \<lparr>evaluated_keys = [''Properties/RepositoryPolicyText/Statement''], logged = []\<rparr>)"
  using
    missing_policy_passed [of
      "[(''Properties'', PDict [(''RepositoryPolicyText'',
          PDict [(''Version'', PStr ''2012-10-17''), (''Statement'', PStr ''none'')])])]"
      sample_loads sample_match fresh_state]
    missing_policy_passed [of
      "[(''Type'', PStr ''AWS::ECR::Repository'')]"
      sample_loads sample_match "\<lparr>evaluated_keys = [''stale''], logged = []\<rparr>"]
  by (simp add: spec_defs fresh_state_def)

text \<open>
  C8. Whenever the method returns FAILED, the one reported key is
  \<open>Properties/RepositoryPolicyText/Statement/[i]/Principal\<close> for a statement index \<open>i\<close>
  of the document, followed by \<open>/AWS\<close> exactly when that statement's \<open>Principal\<close> is a
  mapping with an \<open>AWS\<close> key, followed by \<open>/[j]/\<close> exactly when the scanned block is a
  sequence, \<open>j\<close> being the index of a \<open>"*"\<close> entry. A first statement with
  \<open>Principal.AWS == "*"\<close> and no \<open>Condition\<close> yields the key ending \<open>/[0]/Principal/AWS\<close>;
  with \<open>Principal.AWS == ["111111111111", "*"]\<close> it yields the key ending \<open>/AWS/[1]/\<close>.
\<close>

theorem failed_key_format:
  "(fst (scan_resource_conf loads sls conf s) = Inr FAILED \<longrightarrow>
      (\<exists>i pr es j. i < length (statements_of loads conf) \<and>
          principal_of (statements_of loads conf ! i) = Some pr \<and>
          py_iter (principal_block pr) = Some es \<and> j < length es \<and> es ! j = PStr ''*'' \<and>
          evaluated_keys (snd (scan_resource_conf loads sls conf s)) =
            [failed_key i (has_aws pr) (is_list (principal_block pr)) j])) \<and>
   (statements_of loads conf = PDict sd # rest \<and> map_of sd ''Principal'' = Some (PDict p) \<and>
      map_of p ''AWS'' = Some (PStr ''*'') \<and> map_of sd ''Condition'' = None \<longrightarrow>
      scan_resource_conf loads sls conf s =
        (Inr FAILED,
         s\<lparr>evaluated_keys :=
             [''Properties/RepositoryPolicyText/Statement/[0]/Principal/AWS'']\<rparr>)) \<and>
   (statements_of loads conf = PDict sd # rest \<and> map_of sd ''Principal'' = Some (PDict p) \<and>
      map_of p ''AWS'' = Some (PList [PStr ''111111111111'', PStr ''*'']) \<and>
      map_of sd ''Condition'' = None \<longrightarrow>
      scan_resource_conf loads sls conf s =
        (Inr FAILED,
         s\<lparr>evaluated_keys :=
             [''Properties/RepositoryPolicyText/Statement/[0]/Principal/AWS/[1]/'']\<rparr>))"
proof (intro conjI impI)
  let ?r = "scan_resource_conf loads sls conf s"
  let ?s = "s\<lparr>evaluated_keys := [default_key]\<rparr>"
  assume failed: "fst ?r = Inr FAILED"
  from src_FAILED [OF failed] failed
  have "scan_statements 0 (statements_of loads conf) ?s = (Inr FAILED, snd ?r)"
    by (metis prod.collapse)
  from scs_FAILED_D [OF this] obtain n pr es j where
    "n < length (statements_of loads conf)"
    "principal_of (statements_of loads conf ! n) = Some pr"
    "py_iter (principal_block pr) = Some es" "j < length es" "es ! j = PStr ''*''"
    "snd ?r = ?s\<lparr>evaluated_keys :=
        [reported_key (evaluated_key (0 + n) pr) (principal_block pr) j]\<rparr>"
    by blast
  then show "\<exists>i pr es j. i < length (statements_of loads conf) \<and>
          principal_of (statements_of loads conf ! i) = Some pr \<and>
          py_iter (principal_block pr) = Some es \<and> j < length es \<and> es ! j = PStr ''*'' \<and>
          evaluated_keys (snd ?r) =
            [failed_key i (has_aws pr) (is_list (principal_block pr)) j]"
    by (intro exI [of _ n] exI [of _ pr] exI [of _ es] exI [of _ j])
       (simp add: failed_key_eq)
next
  assume a: "statements_of loads conf = PDict sd # rest \<and>
      map_of sd ''Principal'' = Some (PDict p) \<and>
      map_of p ''AWS'' = Some (PStr ''*'') \<and> map_of sd ''Condition'' = None"
  then have "check_for_constrained_condition sd = Inr False"
    by (simp add: check_no_condition)
  with a src_first_statement_failure [where loads = loads and conf = conf and sd = sd
      and rest = rest and pr = "PDict p" and es = "[]" and later = "[]" and sls = sls
      and s = s]
  show "scan_resource_conf loads sls conf s =
        (Inr FAILED,
         s\<lparr>evaluated_keys :=
             [''Properties/RepositoryPolicyText/Statement/[0]/Principal/AWS'']\<rparr>)"
    by (simp add: failed_key_def str_nat_digit digit_char_def)
next
  assume a: "statements_of loads conf = PDict sd # rest \<and>
      map_of sd ''Principal'' = Some (PDict p) \<and>
      map_of p ''AWS'' = Some (PList [PStr ''111111111111'', PStr ''*'']) \<and>
      map_of sd ''Condition'' = None"
  then have "check_for_constrained_condition sd = Inr False"
    by (simp add: check_no_condition)
  with a src_first_statement_failure [where loads = loads and conf = conf and sd = sd
      and rest = rest and pr = "PDict p" and es = "[PStr ''111111111111'']" and later = "[]"
      and sls = sls and s = s]
  show "scan_resource_conf loads sls conf s =
        (Inr FAILED,
         s\<lparr>evaluated_keys :=
             [''Properties/RepositoryPolicyText/Statement/[0]/Principal/AWS/[1]/'']\<rparr>)"
    by (simp add: failed_key_def str_nat_digit digit_char_def)
qed

theorem failed_key_format_witness:
  "scan_resource_conf sample_loads sample_match
       [(''Properties'', PDict [(''RepositoryPolicyText'',
          PDict [(''Statement'', PList [PDict [(''Effect'', PStr ''Allow''),
            (''Principal'', PDict [(''AWS'', PStr ''*'')])]])])])]
       fresh_state
     = (Inr FAILED,
        \<lparr>evaluated_keys = [''Properties/RepositoryPolicyText/Statement/[0]/Principal/AWS''],
         logged = []\<rparr>)"
  using failed_key_format [where loads = sample_loads and sls = sample_match
      and s = fresh_state
      and sd = "[(''Effect'', PStr ''Allow''), (''Principal'', PDict [(''AWS'', PStr ''*'')])]"
      and p = "[(''AWS'', PStr ''*'')]" and rest = "[]"
      and conf = "[(''Properties'', PDict [(''RepositoryPolicyText'',
          PDict [(''Statement'', PList [PDict [(''Effect'', PStr ''Allow''),
            (''Principal'', PDict [(''AWS'', PStr ''*'')])]])])])]"]
  by (simp add: spec_defs fresh_state_def)

text \<open>
  C9. The outcome is a function of the configuration alone: the verdict and the
  evaluated keys do not depend on the state the check object is in when the method is
  called, so a second evaluation, started from the state the first one left, yields the
  same verdict and the same keys. The configuration is a value the method only reads.
\<close>

theorem evaluation_repeatable:
  "fst (scan_resource_conf loads sls conf t) = fst (scan_resource_conf loads sls conf s) \<and>
   evaluated_keys (snd (scan_resource_conf loads sls conf t)) =
     evaluated_keys (snd (scan_resource_conf loads sls conf s)) \<and>
   fst (scan_resource_conf loads sls conf (snd (scan_resource_conf loads sls conf s))) =
     fst (scan_resource_conf loads sls conf s) \<and>
   evaluated_keys
     (snd (scan_resource_conf loads sls conf (snd (scan_resource_conf loads sls conf s)))) =
     evaluated_keys (snd (scan_resource_conf loads sls conf s))"
  using src_state_independent [of loads sls conf t s]
    src_state_independent [of loads sls conf "snd (scan_resource_conf loads sls conf s)" s]
  by simp

text \<open>
  C10, as the claim states it, fails: a structured policy whose principal is an account
  number read as an integer makes \<open>enumerate\<close> raise a \<open>TypeError\<close>, so the method
  resolves to neither PASSED nor FAILED.
\<close>

theorem integer_principal_raises:
  "fst (scan_resource_conf sample_loads sample_match
       [(''Properties'', PDict [(''RepositoryPolicyText'',
          PDict [(''Statement'', PList [PDict [(''Principal'',
            PDict [(''AWS'', PInt 123456789012)])]])])])]
       fresh_state) = Inl TypeError"
  by (simp add: eval_defs)

text \<open>
  C10, amended. For every configuration whose \<open>RepositoryPolicyText\<close> is present,
  non-empty and not a string, the method never returns UNKNOWN; and when that structured
  value has the shapes of the data model, it returns PASSED or FAILED.
\<close>

theorem structured_policy_never_unknown:
  assumes p: "map_of conf ''Properties'' = Some (PDict props)"
    and v: "map_of props ''RepositoryPolicyText'' = Some v"
    and t: "truthy v" and ns: "\<not> is_str v"
  shows "fst (scan_resource_conf loads sls conf s) \<noteq> Inr UNKNOWN \<and>
         (well_formed_document v \<longrightarrow>
            fst (scan_resource_conf loads sls conf s) = Inr PASSED \<or>
            fst (scan_resource_conf loads sls conf s) = Inr FAILED)"
proof -
  let ?s = "s\<lparr>evaluated_keys := [default_key]\<rparr>"
  from p v t ns have w: "working_document loads conf = Some v"
    by (cases v) (simp_all add: working_document_def policy_text_def)
  have "fst (scan_policy v ?s) \<noteq> Inr UNKNOWN"
  proof (cases v)
    case (PDict d)
    show ?thesis
    proof (cases "map_of d ''Statement''")
      case None
      with PDict show ?thesis by simp
    next
      case x: (Some x)
      with PDict scs_verdict [of 0 _ ?s] show ?thesis by (cases x) simp_all
    qed
  qed simp_all
  moreover have "fst (scan_resource_conf loads sls conf s) = Inr PASSED \<or>
            fst (scan_resource_conf loads sls conf s) = Inr FAILED" if "well_formed_document v"
    using src_well_formed_document [OF w that, of sls s]
      scs_well_formed [of "statements_of loads conf" 0 ?s] by auto
  ultimately show ?thesis by (simp add: src_working [OF w])
qed

theorem structured_policy_never_unknown_witness:
  "well_formed_document
       (PDict [(''Statement'', PList [PDict [(''Principal'', PDict [(''AWS'', PStr ''*'')]),
          (''Condition'', PDict [(''StringEquals'',
             PDict [(''aws:PrincipalOrgID'', PStr ''o-xxxx'')])])]])]) \<and>
   fst (scan_resource_conf sample_loads sample_match
       [(''Properties'', PDict [(''RepositoryPolicyText'',
          PDict [(''Statement'', PList [PDict [(''Principal'', PDict [(''AWS'', PStr ''*'')]),
            (''Condition'', PDict [(''StringEquals'',
               PDict [(''aws:PrincipalOrgID'', PStr ''o-xxxx'')])])]])])])]
       fresh_state) = Inr PASSED"
  using structured_policy_never_unknown [of
      "[(''Properties'', PDict [(''RepositoryPolicyText'',
          PDict [(''Statement'', PList [PDict [(''Principal'', PDict [(''AWS'', PStr ''*'')]),
            (''Condition'', PDict [(''StringEquals'',
               PDict [(''aws:PrincipalOrgID'', PStr ''o-xxxx'')])])]])])])]"
      "[(''RepositoryPolicyText'',
          PDict [(''Statement'', PList [PDict [(''Principal'', PDict [(''AWS'', PStr ''*'')]),
            (''Condition'', PDict [(''StringEquals'',
               PDict [(''aws:PrincipalOrgID'', PStr ''o-xxxx'')])])]])])]"
      "PDict [(''Statement'', PList [PDict [(''Principal'', PDict [(''AWS'', PStr ''*'')]),
            (''Condition'', PDict [(''StringEquals'',
               PDict [(''aws:PrincipalOrgID'', PStr ''o-xxxx'')])])]])]"
      sample_loads sample_match fresh_state]
  by (simp add: eval_defs spec_defs)

end
